theory Spec2Isabelle
  imports Main "HOL-Library.Finite_Map" "HOL-Library.Char_ord" "HOL-Library.List_Lexorder"
begin

section \<open>Values of a parameter mapping\<close>

text \<open>
  The package \<open>signvalidator\<close> signs a \<open>map[string]interface{}\<close>. A Go string is a
  sequence of bytes, which is what \<open>string\<close> (a list of 8-bit \<open>char\<close>) is here; strings
  are ordered bytewise and lexicographically, as Go's \<open><\<close> on strings and
  \<open>sort.Strings\<close> order them.

  The dynamic values are a closed variant. \<open>VInt\<close> stands for a value of any of the ten
  integer types of the type switch in \<open>convertToString\<close>; \<open>VFloat\<close> for a \<open>float32\<close> or
  \<open>float64\<close>; \<open>VNil\<close> for the nil interface. The two composites reach the
  \<open>default\<close> branch of the switch: \<open>VList\<close> is a non-nil \<open>[]interface{}\<close> and
  \<open>VMap\<close> a non-nil \<open>map[string]interface{}\<close>, given by its entries with every key
  listed once. A slice or map of strings, of booleans or of \<open>int\<close> is written by
  \<open>json.Marshal\<close> like the \<open>[]interface{}\<close> or \<open>map[string]interface{}\<close> of the same
  elements, so \<open>[]string{"a", "b"}\<close> is \<open>VList [VString a, VString b]\<close>. Inside a
  composite a \<open>VFloat\<close> is a \<open>float64\<close>.

  A floating-point number is kept exactly: \<open>FNum neg m e\<close> is the finite number
  \<open>m * 2\<^sup>e\<close>, negated when \<open>neg\<close> holds (so \<open>FNum True 0 0\<close> is the negative
  zero), \<open>FInf neg\<close> an infinity and \<open>FNaN\<close> a NaN.
\<close>

datatype gfloat = FNum bool nat int | FInf bool | FNaN

datatype gvalue =
    VString string
  | VInt int
  | VFloat gfloat
  | VBool bool
  | VNil
  | VList "gvalue list"
  | VMap "(string \<times> gvalue) list"

text \<open>
  The errors of the package. The first three are the ones it creates itself:
  \<open>fmt.Errorf\<close> with the algorithm value formatted into the message, and the two
  \<open>errors.New\<close> of \<open>ValidateWithSignInParams\<close>. \<open>UnsupportedValue\<close> is the error of
  \<open>json.Marshal\<close> on a NaN or an infinity.
\<close>

datatype go_error =
    UnsupportedAlgorithm string
  | MissingSignature
  | InvalidSignatureType
  | UnsupportedValue

section \<open>What the Go runtime library provides\<close>

text \<open>
  The digests are not part of the package: \<open>md5.New\<close>, \<open>sha1.New\<close>, \<open>sha256.New\<close> and
  \<open>hmac.New\<close> come from Go's \<open>crypto\<close> packages. They are parameters of the model:
  \<open>hash_Sum prims h data\<close> is the digest of \<open>data\<close> under the hash made by the
  constructor \<open>h\<close>, and \<open>hmac_Sum prims h key data\<close> the HMAC of \<open>data\<close> under \<open>key\<close>.
  Three pieces of Go's formatting are parameters as well: \<open>json_float\<close>, the JSON
  text of a finite \<open>float64\<close>; \<open>json_escape\<close>, the JSON text of a string that has a
  byte \<open>json.Marshal\<close> does not copy as it is; and \<open>Sprintf_v\<close>, the \<open>%v\<close> rendering
  that \<open>convertToString\<close> falls back to when \<open>json.Marshal\<close> fails.
\<close>

datatype hash_ctor = md5_New | sha1_New | sha256_New

record primitives =
  hash_Sum :: "hash_ctor \<Rightarrow> string \<Rightarrow> string"
  hmac_Sum :: "hash_ctor \<Rightarrow> string \<Rightarrow> string \<Rightarrow> string"
  json_float :: "gfloat \<Rightarrow> string"
  json_escape :: "string \<Rightarrow> string"
  Sprintf_v :: "gvalue \<Rightarrow> string"

subsection \<open>\<open>fmt.Sprintf("%d", v)\<close>\<close>

definition digit_char :: "nat \<Rightarrow> char" where
  "digit_char d = ''0123456789'' ! d"

fun decimal :: "nat \<Rightarrow> string" where
  "decimal n = (if n < 10 then [digit_char n] else decimal (n div 10) @ [digit_char (n mod 10)])"

declare decimal.simps [simp del]

definition Sprintf_d :: "int \<Rightarrow> string" where
  "Sprintf_d i = (if i < 0 then CHR ''-'' # decimal (nat (- i)) else decimal (nat i))"

subsection \<open>\<open>fmt.Sprintf("%.6f", v)\<close>\<close>

text \<open>
  Go converts the exact value of the number to decimal and rounds it to six places,
  a tie going to the even neighbour. \<open>round_half_even a b\<close> is the fraction \<open>a / b\<close>
  rounded that way, \<open>scaled6 m e\<close> the rounded value of \<open>m * 2\<^sup>e * 10\<^sup>6\<close>. A NaN and the
  infinities are printed by name.
\<close>

definition round_half_even :: "nat \<Rightarrow> nat \<Rightarrow> nat" where
  "round_half_even a b =
     (let q = a div b; r = a mod b
      in if b < 2 * r \<or> (2 * r = b \<and> odd q) then q + 1 else q)"

definition scaled6 :: "nat \<Rightarrow> int \<Rightarrow> nat" where
  "scaled6 m e =
     (if 0 \<le> e then m * 1000000 * 2 ^ nat e
      else round_half_even (m * 1000000) (2 ^ nat (- e)))"

definition pad6 :: "string \<Rightarrow> string" where
  "pad6 ds = replicate (6 - length ds) CHR ''0'' @ ds"

fun Sprintf_6f :: "gfloat \<Rightarrow> string" where
  "Sprintf_6f FNaN = ''NaN''"
| "Sprintf_6f (FInf neg) = (if neg then ''-Inf'' else ''+Inf'')"
| "Sprintf_6f (FNum neg m e) =
     (let n = scaled6 m e
      in (if neg then ''-'' else '''') @ decimal (n div 1000000) @ ''.'' @
         pad6 (decimal (n mod 1000000)))"

subsection \<open>\<open>json.Marshal\<close>\<close>

text \<open>
  \<open>json.Marshal\<close> copies a byte of a string as it is when the byte is printable ASCII
  other than the double quote, the backslash and \<open><\<close>, \<open>>\<close>, \<open>&\<close>; a string of such
  bytes only is its own text between double quotes. Any other string is left to the
  parameter \<open>json_escape\<close>. The keys of a map are written in ascending order. A NaN or
  an infinity anywhere in the value makes \<open>json.Marshal\<close> fail.
\<close>

definition json_plain :: "char \<Rightarrow> bool" where
  "json_plain c \<longleftrightarrow> 32 \<le> (of_char c :: nat) \<and> (of_char c :: nat) < 127 \<and>
     c \<notin> {CHR 0x22, CHR 0x5C, CHR ''<'', CHR ''>'', CHR ''&''}"

definition json_string :: "primitives \<Rightarrow> string \<Rightarrow> string" where
  "json_string prims s =
     (if list_all json_plain s then [CHR 0x22] @ s @ [CHR 0x22] else json_escape prims s)"

fun join :: "string \<Rightarrow> string list \<Rightarrow> string" where
  "join sep [] = []"
| "join sep [x] = x"
| "join sep (x # y # ys) = x @ sep @ join sep (y # ys)"

fun collect :: "('e + 'a) list \<Rightarrow> 'e + 'a list" where
  "collect [] = Inr []"
| "collect (Inl e # rs) = Inl e"
| "collect (Inr x # rs) = (case collect rs of Inl e \<Rightarrow> Inl e | Inr xs \<Rightarrow> Inr (x # xs))"

fun json_Marshal :: "primitives \<Rightarrow> gvalue \<Rightarrow> go_error + string" where
  "json_Marshal prims (VString s) = Inr (json_string prims s)"
| "json_Marshal prims (VInt i) = Inr (Sprintf_d i)"
| "json_Marshal prims (VFloat f) =
     (case f of FNum neg m e \<Rightarrow> Inr (json_float prims f) | _ \<Rightarrow> Inl UnsupportedValue)"
| "json_Marshal prims (VBool b) = Inr (if b then ''true'' else ''false'')"
| "json_Marshal prims VNil = Inr ''null''"
| "json_Marshal prims (VList xs) =
     (case collect (map (json_Marshal prims) xs) of
        Inl err \<Rightarrow> Inl err
      | Inr ts \<Rightarrow> Inr (''['' @ join '','' ts @ '']''))"
| "json_Marshal prims (VMap kvs) =
     (case collect (map (\<lambda>(k, v). case json_Marshal prims v of
                                    Inl err \<Rightarrow> Inl err
                                  | Inr t \<Rightarrow> Inr (k, t)) kvs) of
        Inl err \<Rightarrow> Inl err
      | Inr kts \<Rightarrow>
          Inr (''{'' @ join '','' (map (\<lambda>(k, t). json_string prims k @ '':'' @ t)
                                     (sort_key fst kts)) @ ''}''))"

subsection \<open>\<open>hex.EncodeToString\<close>, \<open>strings.ToUpper\<close>, \<open>strings.ToLower\<close>\<close>

text \<open>
  The two case conversions are only ever applied to the output of
  \<open>hex.EncodeToString\<close>, which is ASCII; on ASCII they move the 26 letters and leave
  every other byte alone.
\<close>

definition hextable :: string where
  "hextable = ''0123456789abcdef''"

definition hex_EncodeToString :: "string \<Rightarrow> string" where
  "hex_EncodeToString src =
     concat (map (\<lambda>b. [hextable ! ((of_char b :: nat) div 16),
                        hextable ! ((of_char b :: nat) mod 16)]) src)"

definition upper_byte :: "char \<Rightarrow> char" where
  "upper_byte c =
     (if CHR ''a'' \<le> c \<and> c \<le> CHR ''z'' then char_of ((of_char c :: nat) - 32) else c)"

definition lower_byte :: "char \<Rightarrow> char" where
  "lower_byte c =
     (if CHR ''A'' \<le> c \<and> c \<le> CHR ''Z'' then char_of ((of_char c :: nat) + 32) else c)"

definition ToUpper :: "string \<Rightarrow> string" where
  "ToUpper s = map upper_byte s"

definition ToLower :: "string \<Rightarrow> string" where
  "ToLower s = map lower_byte s"

section \<open>Maps are references\<close>

text \<open>
  A Go map variable refers to a map object that the caller and the callee share. The
  store holds the map objects, an address is an index into it, and a map variable is
  nil or an address. Reading a nil map finds nothing; \<open>make\<close> allocates a fresh empty
  map at the end of the store, where it stays (Go reclaims a map once nothing refers
  to it; the store only grows). \<open>map_range\<close> lists the entries that a \<open>range\<close> loop
  visits; Go visits them in no fixed order, here they come in key order.
\<close>

type_synonym gomap = "(string, gvalue) fmap"

type_synonym store = "gomap list"

datatype mapref = NilMap | MapRef nat

definition deref :: "store \<Rightarrow> mapref \<Rightarrow> gomap" where
  "deref s r =
     (case r of NilMap \<Rightarrow> fmempty
      | MapRef a \<Rightarrow> if a < length s then s ! a else fmempty)"

definition make_map :: "store \<Rightarrow> nat \<times> store" where
  "make_map s = (length s, s @ [fmempty])"

definition map_index :: "store \<Rightarrow> mapref \<Rightarrow> string \<Rightarrow> gvalue \<times> bool" where
  "map_index s r k =
     (case fmlookup (deref s r) k of None \<Rightarrow> (VNil, False) | Some x \<Rightarrow> (x, True))"

definition map_assign :: "nat \<Rightarrow> string \<Rightarrow> gvalue \<Rightarrow> store \<Rightarrow> store" where
  "map_assign a k x s = s[a := fmupd k x (s ! a)]"

definition map_delete :: "nat \<Rightarrow> string \<Rightarrow> store \<Rightarrow> store" where
  "map_delete a k s = s[a := fmdrop k (s ! a)]"

definition map_range :: "store \<Rightarrow> mapref \<Rightarrow> (string \<times> gvalue) list" where
  "map_range s r = sorted_list_of_fmap (deref s r)"

section \<open>The package \<open>signvalidator\<close>\<close>

text \<open>\<open>SignAlgorithm\<close> is a string type; the six constants are its recognised values.\<close>

type_synonym SignAlgorithm = string

definition MD5 :: SignAlgorithm where "MD5 = ''md5''"
definition SHA1 :: SignAlgorithm where "SHA1 = ''sha1''"
definition SHA256 :: SignAlgorithm where "SHA256 = ''sha256''"
definition HMAC_MD5 :: SignAlgorithm where "HMAC_MD5 = ''hmac_md5''"
definition HMAC_SHA1 :: SignAlgorithm where "HMAC_SHA1 = ''hmac_sha1''"
definition HMAC_SHA256 :: SignAlgorithm where "HMAC_SHA256 = ''hmac_sha256''"

record Config =
  Secret :: string
  Algorithm :: SignAlgorithm
  SignatureKey :: string
  IgnoreKeys :: "string list"
  UpperCase :: bool

record SignValidator =
  config :: Config

definition NewSignValidator :: "Config \<Rightarrow> SignValidator" where
  "NewSignValidator c =
     (let c1 = (if SignatureKey c = '''' then c\<lparr>SignatureKey := ''sign''\<rparr> else c);
          c2 = (if Algorithm c1 = '''' then c1\<lparr>Algorithm := SHA256\<rparr> else c1)
      in \<lparr>config = c2\<rparr>)"

text \<open>
  \<open>convertToString\<close>: the type switch, case by case and in the order of the source.
\<close>

fun convertToString :: "primitives \<Rightarrow> gvalue \<Rightarrow> string" where
  "convertToString prims (VString v) = v"
| "convertToString prims (VInt v) = Sprintf_d v"
| "convertToString prims (VFloat v) = Sprintf_6f v"
| "convertToString prims (VBool v) = (if v then ''true'' else ''false'')"
| "convertToString prims VNil = ''''"
| "convertToString prims v =
     (case json_Marshal prims v of
        Inl err \<Rightarrow> Sprintf_v prims v
      | Inr jsonBytes \<Rightarrow> jsonBytes)"

text \<open>
  \<open>calculateHash\<close> and \<open>calculateHMAC\<close>. The \<open>Write\<close> of a \<open>hash.Hash\<close> never returns an
  error, so the error they hand back is always nil.
\<close>

definition calculateHash :: "primitives \<Rightarrow> hash_ctor \<Rightarrow> string \<Rightarrow> string \<times> go_error option" where
  "calculateHash prims h data = (hash_Sum prims h data, None)"

definition calculateHMAC ::
  "primitives \<Rightarrow> hash_ctor \<Rightarrow> string \<Rightarrow> string \<Rightarrow> string \<times> go_error option" where
  "calculateHMAC prims hashFunc key data = (hmac_Sum prims hashFunc key data, None)"

text \<open>
  \<open>GenerateSignature\<close>, in two parts. \<open>stringToSign\<close> is the first half of the function
  body, down to the local variable of that name: the copy of \<open>params\<close> into the fresh
  map \<open>paramsCopy\<close>, the deletions from the copy, the sorted keys, the builder loop
  and the secret. It returns the string and the store it leaves behind.
\<close>

definition stringToSign ::
  "SignValidator \<Rightarrow> primitives \<Rightarrow> mapref \<Rightarrow> store \<Rightarrow> string \<times> store" where
  "stringToSign v prims params s =
     (let (paramsCopy, s1) = make_map s;
          s2 = foldl (\<lambda>st (k, x). map_assign paramsCopy k x st) s1 (map_range s1 params);
          s3 = map_delete paramsCopy (SignatureKey (config v)) s2;
          s4 = foldl (\<lambda>st key. map_delete paramsCopy key st) s3 (IgnoreKeys (config v));
          keys = sort (map fst (map_range s4 (MapRef paramsCopy)));
          builder =
            foldl (\<lambda>b (i, key).
                     (if 0 < i then b @ ''&'' else b) @ key @ ''='' @
                     convertToString prims (fst (map_index s4 (MapRef paramsCopy) key)))
                  '''' (enumerate 0 keys);
          builder' =
            (if Secret (config v) \<noteq> '''' then builder @ ''&key='' @ Secret (config v)
             else builder)
      in (builder', s4))"

text \<open>
  The second half: the switch over the algorithm, the hexadecimal encoding and the
  case. A Go function returns its value and its error side by side.
\<close>

definition GenerateSignature ::
  "SignValidator \<Rightarrow> primitives \<Rightarrow> mapref \<Rightarrow> store \<Rightarrow> (string \<times> go_error option) \<times> store" where
  "GenerateSignature v prims params s =
     (let (str, s') = stringToSign v prims params s;
          alg = Algorithm (config v);
          key = Secret (config v);
          sw =
            (if alg = MD5 then Some (calculateHash prims md5_New str)
             else if alg = SHA1 then Some (calculateHash prims sha1_New str)
             else if alg = SHA256 then Some (calculateHash prims sha256_New str)
             else if alg = HMAC_MD5 then Some (calculateHMAC prims md5_New key str)
             else if alg = HMAC_SHA1 then Some (calculateHMAC prims sha1_New key str)
             else if alg = HMAC_SHA256 then Some (calculateHMAC prims sha256_New key str)
             else None)
      in case sw of
           None \<Rightarrow> (('''', Some (UnsupportedAlgorithm alg)), s')
         | Some (signBytes, Some err) \<Rightarrow> (('''', Some err), s')
         | Some (signBytes, None) \<Rightarrow>
             (let signature = hex_EncodeToString signBytes;
                  signature' =
                    (if UpperCase (config v) then ToUpper signature else ToLower signature)
              in ((signature', None), s')))"

definition Validate ::
  "SignValidator \<Rightarrow> primitives \<Rightarrow> mapref \<Rightarrow> string \<Rightarrow> store \<Rightarrow> (bool \<times> go_error option) \<times> store" where
  "Validate v prims params signature s =
     (let ((expectedSign, err), s') = GenerateSignature v prims params s
      in case err of
           Some e \<Rightarrow> ((False, Some e), s')
         | None \<Rightarrow> ((expectedSign = signature, None), s'))"

definition ValidateWithSignInParams ::
  "SignValidator \<Rightarrow> primitives \<Rightarrow> mapref \<Rightarrow> store \<Rightarrow> (bool \<times> go_error option) \<times> store" where
  "ValidateWithSignInParams v prims params s =
     (let (signValue, exists) = map_index s params (SignatureKey (config v))
      in if \<not> exists then ((False, Some MissingSignature), s)
         else case signValue of
                VString signature \<Rightarrow> Validate v prims params signature s
              | _ \<Rightarrow> ((False, Some InvalidSignatureType), s))"

section \<open>The canonical string, as the specification words it\<close>

text \<open>
  The specification describes the string that is digested as the sorted
  \<open>key=value\<close> pairs of the parameters that are neither the signature key nor an
  ignored key, joined by \<open>&\<close>, followed by \<open>&key=\<close> and the secret when there is
  a secret. \<open>canonical\<close> is that description, on a map rather than on the store;
  \<open>stringToSign_eq\<close> below shows that the code computes it. \<open>excluded\<close> is the set
  of keys that are left out, \<open>signable\<close> the mapping without them.
\<close>

definition excluded :: "SignValidator \<Rightarrow> string set" where
  "excluded v = insert (SignatureKey (config v)) (set (IgnoreKeys (config v)))"

definition signable :: "SignValidator \<Rightarrow> gomap \<Rightarrow> gomap" where
  "signable v m = fmdrop_set (excluded v) m"

definition value_at :: "gomap \<Rightarrow> string \<Rightarrow> gvalue" where
  "value_at m k = (case fmlookup m k of None \<Rightarrow> VNil | Some x \<Rightarrow> x)"

definition pair_text :: "primitives \<Rightarrow> gomap \<Rightarrow> string \<Rightarrow> string" where
  "pair_text prims m k = k @ ''='' @ convertToString prims (value_at m k)"

definition secret_suffix :: "SignValidator \<Rightarrow> string" where
  "secret_suffix v = (if Secret (config v) = '''' then '''' else ''&key='' @ Secret (config v))"

definition canonical :: "SignValidator \<Rightarrow> primitives \<Rightarrow> gomap \<Rightarrow> string" where
  "canonical v prims m =
     join ''&'' (map (pair_text prims (signable v m))
                     (sorted_list_of_fset (fmdom (signable v m)))) @ secret_suffix v"

text \<open>
  The six recognised algorithms, the digest each of them takes of a string (the three
  HMAC algorithms under the configured secret), the hexadecimal text of a digest in
  the configured case, and the signature with its error as the specification
  describes them; \<open>GenerateSignature_eq\<close> below shows that the code returns
  \<open>signature_of\<close>.
\<close>

definition recognized :: "SignAlgorithm list" where
  "recognized = [MD5, SHA1, SHA256, HMAC_MD5, HMAC_SHA1, HMAC_SHA256]"

definition digest :: "SignValidator \<Rightarrow> primitives \<Rightarrow> string \<Rightarrow> string" where
  "digest v prims str =
     (let alg = Algorithm (config v); key = Secret (config v)
      in if alg = MD5 then hash_Sum prims md5_New str
         else if alg = SHA1 then hash_Sum prims sha1_New str
         else if alg = SHA256 then hash_Sum prims sha256_New str
         else if alg = HMAC_MD5 then hmac_Sum prims md5_New key str
         else if alg = HMAC_SHA1 then hmac_Sum prims sha1_New key str
         else hmac_Sum prims sha256_New key str)"

definition hex_case :: "SignValidator \<Rightarrow> string \<Rightarrow> string" where
  "hex_case v bytes =
     (if UpperCase (config v) then ToUpper (hex_EncodeToString bytes)
      else ToLower (hex_EncodeToString bytes))"

definition signature_of :: "SignValidator \<Rightarrow> primitives \<Rightarrow> gomap \<Rightarrow> string \<times> go_error option" where
  "signature_of v prims m =
     (if Algorithm (config v) \<in> set recognized
      then (hex_case v (digest v prims (canonical v prims m)), None)
      else ('''', Some (UnsupportedAlgorithm (Algorithm (config v)))))"

text \<open>Hexadecimal encoding over any table of sixteen digits.\<close>

definition encode_with :: "string \<Rightarrow> string \<Rightarrow> string" where
  "encode_with T src =
     concat (map (\<lambda>b. [T ! ((of_char b :: nat) div 16), T ! ((of_char b :: nat) mod 16)]) src)"

section \<open>The shape of the coerced text\<close>






section \<open>Concrete inputs\<close>

text \<open>
  An instance of the library parameters, on which the model runs on concrete inputs:
  its digest is the data itself and its HMAC the key followed by the data. Every
  theorem below holds for all instances; this one only serves to instantiate them.
\<close>

definition stub_primitives :: primitives where
  "stub_primitives =
     \<lparr>hash_Sum = (\<lambda>h data. data), hmac_Sum = (\<lambda>h key data. key @ data),
      json_float = (\<lambda>f. ''0''), json_escape = (\<lambda>s. s), Sprintf_v = (\<lambda>x. '''')\<rparr>"

text \<open>
  The configurations and parameters of the package's tests \<open>TestSignValidator_MD5\<close>,
  \<open>TestSignValidator_HMAC_SHA256\<close> and \<open>TestSignValidator_IgnoreKeys\<close>. The literal
  \<open>100.50\<close> is the \<open>float64\<close> \<open>201 * 2\<^sup>-\<^sup>1\<close>, and \<open>200.00\<close> is \<open>25 * 2\<^sup>3\<close>.
\<close>

definition md5_test_config :: Config where
  "md5_test_config =
     \<lparr>Secret = ''testSecret'', Algorithm = MD5, SignatureKey = ''sign'', IgnoreKeys = [],
      UpperCase = False\<rparr>"

definition test_params :: gomap where
  "test_params =
     fmap_of_list [(''id'', VInt 123), (''name'', VString ''test''),
                   (''amount'', VFloat (FNum False 201 (- 1)))]"

definition hmac_test_config :: Config where
  "hmac_test_config =
     \<lparr>Secret = ''testSecret'', Algorithm = HMAC_SHA256, SignatureKey = ''sign'',
      IgnoreKeys = [], UpperCase = True\<rparr>"

definition hmac_test_params :: gomap where
  "hmac_test_params =
     fmap_of_list [(''id'', VInt 123), (''name'', VString ''test''),
                   (''amount'', VFloat (FNum False 201 (- 1))),
                   (''sign'', VString ''should_be_ignored'')]"

definition ignore_test_config :: Config where
  "ignore_test_config =
     \<lparr>Secret = ''testSecret'', Algorithm = SHA1, SignatureKey = ''sign'',
      IgnoreKeys = [''timestamp'', ''nonce''], UpperCase = False\<rparr>"

definition ignore_test_params :: "(string \<times> gvalue) list" where
  "ignore_test_params =
     [(''id'', VInt 123), (''name'', VString ''test''),
      (''amount'', VFloat (FNum False 201 (- 1))),
      (''timestamp'', VString ''1634567890''), (''nonce'', VString ''random_string'')]"

definition ignored_changed_params :: "(string \<times> gvalue) list" where
  "ignored_changed_params =
     [(''id'', VInt 123), (''name'', VString ''test''),
      (''amount'', VFloat (FNum False 201 (- 1))),
      (''timestamp'', VString ''9999999999''),
      (''nonce'', VString ''different_random_string'')]"

text \<open>A configuration whose algorithm is none of the six, with no signature key set.\<close>

definition crc_config :: Config where
  "crc_config =
     \<lparr>Secret = ''testSecret'', Algorithm = ''crc32'', SignatureKey = '''', IgnoreKeys = [],
      UpperCase = False\<rparr>"

text \<open>
  A key that no configuration excludes: it is longer than the signature key and the
  ignored keys taken together.
\<close>

definition fresh_key :: "SignValidator \<Rightarrow> string" where
  "fresh_key v =
     replicate (Suc (sum_list (map length (SignatureKey (config v) # IgnoreKeys (config v)))))
       CHR ''a''"

section \<open>Auxiliary facts\<close>

subsection \<open>The code computes the canonical string\<close>

lemma copy_loop_store:
  "foldl (\<lambda>st (k, x). map_assign (length s) k x st) (s @ [m0]) kvs =
   s @ [foldl (\<lambda>m (k, x). fmupd k x m) m0 kvs]"
  by (induction kvs arbitrary: m0) (auto simp: map_assign_def)

lemma delete_loop_store:
  "foldl (\<lambda>st key. map_delete (length s) key st) (s @ [m0]) ks =
   s @ [foldl (\<lambda>m key. fmdrop key m) m0 ks]"
  by (induction ks arbitrary: m0) (auto simp: map_delete_def)

lemma delete_loop_map: "foldl (\<lambda>m key. fmdrop key m) m0 ks = fmdrop_set (set ks) m0"
proof (induction ks arbitrary: m0)
  case Nil
  show ?case by simp
next
  case (Cons k ks)
  show ?case by (simp add: Cons.IH)
qed

lemma copy_loop_lookup:
  "fmlookup (foldl (\<lambda>m (k, x). fmupd k x m) m0 kvs) k =
   (case map_of (rev kvs) k of None \<Rightarrow> fmlookup m0 k | Some x \<Rightarrow> Some x)"
  by (induction kvs arbitrary: m0) (auto simp: map_add_def split: option.splits)

lemma fst_sorted_list_of_fmap: "map fst (sorted_list_of_fmap m) = sorted_list_of_fset (fmdom m)"
  by (simp add: sorted_list_of_fmap_def comp_def)

lemma distinct_sorted_list_of_fset: "distinct (sorted_list_of_fset A)"
  by (simp add: sorted_list_of_fset.rep_eq)

lemma sorted_sorted_list_of_fset: "sorted (sorted_list_of_fset A)"
  by (simp add: sorted_list_of_fset.rep_eq)

lemma copy_loop_map: "foldl (\<lambda>m (k, x). fmupd k x m) fmempty (sorted_list_of_fmap m) = m"
proof (rule fmap_ext)
  fix k
  have d: "distinct (map fst (sorted_list_of_fmap m))"
    by (simp add: fst_sorted_list_of_fmap distinct_sorted_list_of_fset)
  have "map_of (rev (sorted_list_of_fmap m)) = map_of (sorted_list_of_fmap m)"
    using d by (subst map_of_inject_set) (simp_all add: rev_map [symmetric])
  then show "fmlookup (foldl (\<lambda>m (k, x). fmupd k x m) fmempty (sorted_list_of_fmap m)) k =
        fmlookup m k"
    by (simp add: copy_loop_lookup split: option.splits)
qed

text \<open>
  Go visits the entries of a map in an order that changes from one run to the next.
  Neither \<open>range\<close> loop of \<open>GenerateSignature\<close> depends on it: the copy loop builds the
  same map from the entries in any order, and sorting the keys collected in any order
  gives the same list.
\<close>

lemma copy_loop_any_order:
  assumes "distinct (map fst kvs)" and "map_of kvs = fmlookup m"
  shows "foldl (\<lambda>m (k, x). fmupd k x m) fmempty kvs = m"
proof (rule fmap_ext)
  fix k
  have "map_of (rev kvs) = map_of kvs"
    using assms(1) by (subst map_of_inject_set) (simp_all add: rev_map [symmetric])
  then show "fmlookup (foldl (\<lambda>m (k, x). fmupd k x m) fmempty kvs) k = fmlookup m k"
    by (simp add: copy_loop_lookup assms(2) split: option.splits)
qed

lemma sort_any_order:
  assumes "distinct ks" and "set ks = fset (fmdom m)"
  shows "sort ks = sorted_list_of_fset (fmdom m)"
proof -
  have "sorted_list_of_fset (fmdom m) = sorted_list_of_set (set ks)"
    by (simp add: sorted_list_of_fset.rep_eq assms(2))
  also have "\<dots> = sort (remdups ks)"
    by (rule sorted_list_of_set_sort_remdups)
  finally show ?thesis
    using assms(1) by (simp add: distinct_remdups_id)
qed

lemma deref_fresh: "deref (s @ [m]) (MapRef (length s)) = m"
  by (simp add: deref_def)

lemma deref_grow: "deref (s @ [fmempty]) r = deref s r"
  by (auto simp: deref_def nth_append less_Suc_eq split: mapref.splits)

lemma builder_loop:
  "foldl (\<lambda>b (i, key). (if 0 < i then b @ ''&'' else b) @ f key) b0 (enumerate i ks) =
   b0 @ concat (map (\<lambda>(j, key). (if 0 < j then ''&'' else '''') @ f key) (enumerate i ks))"
  by (induction ks arbitrary: b0 i) auto

lemma join_pieces_Suc:
  "concat (map (\<lambda>(j, key). (if 0 < j then ''&'' else '''') @ f key) (enumerate (Suc i) ks)) =
   concat (map (\<lambda>key. ''&'' @ f key) ks)"
  by (induction ks arbitrary: i) auto

lemma join_amp: "join ''&'' (x # xs) = x @ concat (map (\<lambda>y. ''&'' @ y) xs)"
  by (induction xs arbitrary: x) auto

lemma builder_join:
  "foldl (\<lambda>b (i, key). (if 0 < i then b @ ''&'' else b) @ f key) '''' (enumerate 0 ks) =
   join ''&'' (map f ks)"
proof (cases ks)
  case Nil
  then show ?thesis by simp
next
  case (Cons k ks')
  then show ?thesis
    by (simp add: builder_loop join_pieces_Suc join_amp comp_def)
qed

lemma stringToSign_eq:
  "stringToSign v prims params s =
   (canonical v prims (deref s params), s @ [signable v (deref s params)])"
proof -
  let ?m = "deref s params"
  let ?a = "length s"
  have s2: "foldl (\<lambda>st (k, x). map_assign ?a k x st) (s @ [fmempty])
              (map_range (s @ [fmempty]) params) = s @ [?m]"
    by (simp add: copy_loop_store map_range_def deref_grow copy_loop_map)
  have s3: "map_delete ?a (SignatureKey (config v)) (s @ [?m]) =
            s @ [fmdrop (SignatureKey (config v)) ?m]"
    by (simp add: map_delete_def)
  have s4: "foldl (\<lambda>st key. map_delete ?a key st)
              (s @ [fmdrop (SignatureKey (config v)) ?m]) (IgnoreKeys (config v)) =
            s @ [signable v ?m]"
    by (simp add: delete_loop_store delete_loop_map signable_def excluded_def)
  have keys: "sort (map fst (map_range (s @ [signable v ?m]) (MapRef ?a))) =
              sorted_list_of_fset (fmdom (signable v ?m))"
    by (simp add: map_range_def deref_fresh fst_sorted_list_of_fmap sorted_sort_id
        sorted_sorted_list_of_fset)
  have idx: "\<And>key. fst (map_index (s @ [signable v ?m]) (MapRef ?a) key) =
                   value_at (signable v ?m) key"
    by (simp add: map_index_def deref_fresh value_at_def split: option.splits)
  show ?thesis
    unfolding stringToSign_def make_map_def Let_def prod.case s2 s3 s4 keys idx
    by (simp add: canonical_def secret_suffix_def pair_text_def[abs_def] builder_join)
qed

subsection \<open>The hexadecimal text determines the digest\<close>

lemma of_char_lt_256: "(of_char c :: nat) < 256"
proof -
  have "(of_char c :: nat) mod 256 < 256" by simp
  then show ?thesis by (simp only: of_char_mod_256)
qed

lemma distinct_hextable: "distinct hextable"
  by (simp add: hextable_def)

lemma length_hextable: "length hextable = 16"
  by (simp add: hextable_def)

lemma upper_hextable: "map upper_byte hextable = ''0123456789ABCDEF''"
  by (simp add: hextable_def upper_byte_def less_eq_char_def char_of_def bit_0)

lemma lower_hextable: "map lower_byte hextable = hextable"
  by (simp add: hextable_def lower_byte_def less_eq_char_def)

lemma hex_encode_with: "hex_EncodeToString src = encode_with hextable src"
  by (simp add: hex_EncodeToString_def encode_with_def)

lemma nibble_lt: "(of_char b :: nat) div 16 < 16" "(of_char b :: nat) mod 16 < 16"
  using of_char_lt_256 [of b] by (simp_all add: less_mult_imp_div_less)

lemma map_encode_with:
  "length T = 16 \<Longrightarrow> map f (encode_with T src) = encode_with (map f T) src"
  by (induction src) (simp_all add: encode_with_def nibble_lt)

lemma byte_of_nibbles:
  assumes "(of_char a :: nat) div 16 = (of_char b :: nat) div 16"
    and "(of_char a :: nat) mod 16 = (of_char b :: nat) mod 16"
  shows "a = b"
proof -
  have "(of_char a :: nat) = of_char b"
    using assms by (metis div_mult_mod_eq)
  then show ?thesis by simp
qed

lemma encode_with_inj:
  assumes "distinct T" and "length T = 16"
  shows "encode_with T xs = encode_with T ys \<Longrightarrow> xs = ys"
proof (induction xs arbitrary: ys)
  case Nil
  then show ?case by (cases ys) (simp_all add: encode_with_def)
next
  case (Cons x xs)
  then obtain y ys' where ys: "ys = y # ys'"
    by (cases ys) (simp_all add: encode_with_def)
  from Cons.prems ys have hd: "T ! ((of_char x :: nat) div 16) = T ! ((of_char y :: nat) div 16)"
    and hd2: "T ! ((of_char x :: nat) mod 16) = T ! ((of_char y :: nat) mod 16)"
    and tl: "encode_with T xs = encode_with T ys'"
    by (simp_all add: encode_with_def)
  from hd have "(of_char x :: nat) div 16 = (of_char y :: nat) div 16"
    using assms nibble_lt by (simp add: nth_eq_iff_index_eq)
  moreover from hd2 have "(of_char x :: nat) mod 16 = (of_char y :: nat) mod 16"
    using assms nibble_lt by (simp add: nth_eq_iff_index_eq)
  ultimately have "x = y" by (rule byte_of_nibbles)
  with Cons.IH [OF tl] ys show ?case by simp
qed

lemma ToLower_hex: "ToLower (hex_EncodeToString src) = hex_EncodeToString src"
  by (simp add: ToLower_def hex_encode_with map_encode_with length_hextable lower_hextable)

lemma ToUpper_hex: "ToUpper (hex_EncodeToString src) = encode_with ''0123456789ABCDEF'' src"
  by (simp add: ToUpper_def hex_encode_with map_encode_with length_hextable upper_hextable)

lemma hex_case_inj: "hex_case v a = hex_case v b \<Longrightarrow> a = b"
proof (cases "UpperCase (config v)")
  case True
  assume "hex_case v a = hex_case v b"
  with True have "encode_with ''0123456789ABCDEF'' a = encode_with ''0123456789ABCDEF'' b"
    by (simp add: hex_case_def ToUpper_hex)
  then show ?thesis by (rule encode_with_inj [rotated 2]) simp_all
next
  case False
  assume "hex_case v a = hex_case v b"
  with False have "hex_EncodeToString a = hex_EncodeToString b"
    by (simp add: hex_case_def ToLower_hex)
  then have "encode_with hextable a = encode_with hextable b"
    by (simp add: hex_encode_with)
  then show ?thesis
    by (rule encode_with_inj [OF distinct_hextable length_hextable])
qed

subsection \<open>What the operations return\<close>

lemmas algorithm_defs = MD5_def SHA1_def SHA256_def HMAC_MD5_def HMAC_SHA1_def HMAC_SHA256_def

lemma GenerateSignature_eq:
  "GenerateSignature v prims params s =
   (signature_of v prims (deref s params), s @ [signable v (deref s params)])"
  by (simp add: GenerateSignature_def stringToSign_eq signature_of_def recognized_def
      digest_def hex_case_def calculateHash_def calculateHMAC_def Let_def algorithm_defs)

lemma deref_after: "deref (s @ [signable v (deref s params)]) params = deref s params"
  by (cases params) (auto simp: deref_def nth_append signable_def less_Suc_eq)

lemma Validate_eq:
  "Validate v prims params signature s =
   ((case signature_of v prims (deref s params) of
       (expectedSign, None) \<Rightarrow> (expectedSign = signature, None)
     | (expectedSign, Some e) \<Rightarrow> (False, Some e)),
    s @ [signable v (deref s params)])"
  by (simp add: Validate_def GenerateSignature_eq split: prod.splits option.splits)

subsection \<open>Running the model on a mapping given by its entries\<close>

lemma decimal_small: "n < 10 \<Longrightarrow> decimal n = [digit_char n]"
  by (subst decimal.simps) simp

lemma decimal_big: "10 \<le> n \<Longrightarrow> decimal n = decimal (n div 10) @ [digit_char (n mod 10)]"
  by (subst decimal.simps) simp

lemma replicate_numeral: "replicate (numeral k) x = x # replicate (pred_numeral k) x"
  by (simp add: numeral_eq_Suc)

lemmas format_simps = decimal_small decimal_big digit_char_def Sprintf_d_def scaled6_def
  round_half_even_def pad6_def Let_def replicate_numeral

lemma keys_of_list:
  "sorted_list_of_fset (fmdom (fmap_of_list kvs)) = sort (remdups (map fst kvs))"
proof -
  have "sorted_list_of_fset (fmdom (fmap_of_list kvs)) = sorted_list_of_set (set (map fst kvs))"
    by (simp add: sorted_list_of_fset.rep_eq fset_of_list.rep_eq)
  then show ?thesis
    by (simp only: sorted_list_of_set_sort_remdups)
qed

lemma map_of_filter_key:
  "map_of (filter (\<lambda>kv. P (fst kv)) kvs) k = (if P k then map_of kvs k else None)"
  by (induction kvs) auto

lemma signable_of_list:
  "signable v (fmap_of_list kvs) = fmap_of_list (filter (\<lambda>kv. fst kv \<notin> excluded v) kvs)"
proof (rule fmap_ext)
  fix k
  show "fmlookup (signable v (fmap_of_list kvs)) k =
        fmlookup (fmap_of_list (filter (\<lambda>kv. fst kv \<notin> excluded v) kvs)) k"
    using map_of_filter_key [where P = "\<lambda>k. k \<notin> excluded v" and kvs = kvs and k = k]
    by (simp add: signable_def fmlookup_of_list)
qed

lemma canonical_of_list:
  "canonical v prims (fmap_of_list kvs) =
   join ''&'' (map (\<lambda>k. k @ ''='' @
                      convertToString prims (case map_of kvs k of None \<Rightarrow> VNil | Some x \<Rightarrow> x))
                 (sort (remdups (filter (\<lambda>k. k \<notin> excluded v) (map fst kvs))))) @
   secret_suffix v"
proof -
  let ?keys = "sort (remdups (filter (\<lambda>k. k \<notin> excluded v) (map fst kvs)))"
  have keys: "sorted_list_of_fset (fmdom (signable v (fmap_of_list kvs))) = ?keys"
    by (simp only: signable_of_list keys_of_list filter_map comp_def)
  have pt: "pair_text prims (signable v (fmap_of_list kvs)) k =
        k @ ''='' @ convertToString prims (case map_of kvs k of None \<Rightarrow> VNil | Some x \<Rightarrow> x)"
    if "k \<in> set ?keys" for k
    using that
    by (simp add: pair_text_def value_at_def signable_def fmlookup_of_list
        del: fmap_of_list_simps)
  have eq: "map (pair_text prims (signable v (fmap_of_list kvs))) ?keys =
        map (\<lambda>k. k @ ''='' @
               convertToString prims (case map_of kvs k of None \<Rightarrow> VNil | Some x \<Rightarrow> x)) ?keys"
    by (rule map_cong [OF refl]) (rule pt)
  show ?thesis
    unfolding canonical_def keys eq by (rule refl)
qed

lemmas string_order_simps = less_eq_char_def less_char_def

subsection \<open>The canonical string and the excluded keys\<close>

lemma signature_of_recognized:
  "Algorithm (config v) \<in> set recognized \<Longrightarrow>
   signature_of v prims m = (hex_case v (digest v prims (canonical v prims m)), None)"
  by (simp add: signature_of_def)

lemma signable_idem: "signable v (signable v m) = signable v m"
  by (simp add: signable_def)

lemma canonical_signable: "canonical v prims (signable v m) = canonical v prims m"
  by (simp add: canonical_def signable_idem)

lemma signature_of_signable: "signature_of v prims (signable v m) = signature_of v prims m"
  by (simp add: signature_of_def canonical_signable)

lemma set_encode_with:
  "length T = 16 \<Longrightarrow> set (encode_with T src) \<subseteq> set T"
  by (induction src) (auto simp: encode_with_def nibble_lt)

lemma length_encode_with: "length (encode_with T src) = 2 * length src"
  by (induction src) (simp_all add: encode_with_def)

lemma set_hex: "set (hex_EncodeToString src) \<subseteq> set ''0123456789abcdef''"
  using set_encode_with [of hextable src] by (simp add: hex_encode_with hextable_def)

lemma signable_empty:
  assumes "\<And>k. k |\<in>| fmdom m \<Longrightarrow> k \<in> excluded v"
  shows "signable v m = fmempty"
proof (rule fmap_ext)
  fix k
  show "fmlookup (signable v m) k = fmlookup fmempty k"
    using assms [of k] by (cases "fmlookup m k") (auto simp: signable_def fmlookup_dom_iff)
qed

lemma sorted_list_of_fset_empty: "sorted_list_of_fset {||} = []"
  by (simp add: sorted_list_of_fset.rep_eq)

lemma canonical_Secret:
  "canonical v prims m =
   canonical (v\<lparr>config := (config v)\<lparr>Secret := ''''\<rparr>\<rparr>) prims m @ secret_suffix v"
  by (simp add: canonical_def signable_def excluded_def secret_suffix_def)

lemma excluded_Secret: "excluded (v\<lparr>config := (config v)\<lparr>Secret := x\<rparr>\<rparr>) = excluded v"
  by (simp add: excluded_def)

lemma signable_cong:
  assumes "fmdrop (SignatureKey (config v)) m' = fmdrop (SignatureKey (config v)) m"
  shows "signable v m' = signable v m"
proof (rule fmap_ext)
  fix k
  have "fmlookup (fmdrop (SignatureKey (config v)) m') k =
        fmlookup (fmdrop (SignatureKey (config v)) m) k"
    using assms by simp
  then have "fmlookup m' k = fmlookup m k" if "k \<noteq> SignatureKey (config v)"
    using that by simp
  then show "fmlookup (signable v m') k = fmlookup (signable v m) k"
    by (simp add: signable_def excluded_def)
qed

lemma signature_of_cong:
  assumes "fmdrop (SignatureKey (config v)) m' = fmdrop (SignatureKey (config v)) m"
  shows "signature_of v prims m' = signature_of v prims m"
  using signable_cong [OF assms] signature_of_signable [of v prims m]
    signature_of_signable [of v prims m'] by simp

lemma fmdrop_sign_test_params:
  "fmdrop ''sign'' hmac_test_params = fmdrop ''sign'' test_params"
  by (rule fmap_ext) (simp add: hmac_test_params_def test_params_def)

subsection \<open>Decimal and fixed-point text\<close>













subsection \<open>JSON text\<close>















subsection \<open>Replacing one value\<close>

lemma join_snoc_pieces:
  "join sep (xs @ y # ys) =
   concat (map (\<lambda>x. x @ sep) xs) @ y @ concat (map (\<lambda>z. sep @ z) ys)"
proof (induction xs)
  case Nil
  show ?case
    by (induction ys arbitrary: y) simp_all
next
  case (Cons x xs)
  then show ?case
    by (cases xs) simp_all
qed

lemma signable_fmupd:
  "k \<notin> excluded v \<Longrightarrow> signable v (fmupd k x m) = fmupd k x (signable v m)"
  by (rule fmap_ext) (auto simp: signable_def)

lemma fmdom_fmupd_present: "fmlookup m k = Some old \<Longrightarrow> fmdom (fmupd k x m) = fmdom m"
  by (auto simp: fmlookup_dom_iff)

lemma pair_text_fmupd:
  "pair_text prims (fmupd k x m) j =
   (if j = k then k @ ''='' @ convertToString prims x else pair_text prims m j)"
  by (simp add: pair_text_def value_at_def)

lemma canonical_change:
  assumes "k \<notin> excluded v" and "fmlookup m k = Some old"
  shows "canonical v prims (fmupd k x m) = canonical v prims m \<longleftrightarrow>
         convertToString prims x = convertToString prims old"
proof -
  let ?M = "signable v m"
  let ?ks = "sorted_list_of_fset (fmdom ?M)"
  have old: "fmlookup ?M k = Some old"
    using assms by (simp add: signable_def)
  then have "k \<in> set ?ks"
    by (simp add: fmlookup_dom_iff)
  then have "\<exists>as bs. ?ks = as @ k # bs"
    by (rule split_list)
  then obtain as bs where ks: "?ks = as @ k # bs"
    by blast
  have "distinct ?ks"
    by (rule distinct_sorted_list_of_fset)
  with ks have nk: "k \<notin> set as" "k \<notin> set bs"
    by simp_all
  have dom: "fmdom (fmupd k x ?M) = fmdom ?M"
    using old by (rule fmdom_fmupd_present)
  have same: "map (pair_text prims (fmupd k x ?M)) js = map (pair_text prims ?M) js"
    if "k \<notin> set js" for js
    using that by (intro map_cong [OF refl]) (auto simp: pair_text_fmupd)
  have new: "canonical v prims (fmupd k x m) =
             concat (map (\<lambda>t. t @ ''&'') (map (pair_text prims ?M) as)) @
             (k @ ''='' @ convertToString prims x) @
             concat (map (\<lambda>t. ''&'' @ t) (map (pair_text prims ?M) bs)) @ secret_suffix v"
    unfolding canonical_def signable_fmupd [OF assms(1)] dom ks
    by (simp add: join_snoc_pieces same nk pair_text_fmupd del: map_map)
  have "pair_text prims ?M k = k @ ''='' @ convertToString prims old"
    using old by (simp add: pair_text_def value_at_def)
  then have cur: "canonical v prims m =
             concat (map (\<lambda>t. t @ ''&'') (map (pair_text prims ?M) as)) @
             (k @ ''='' @ convertToString prims old) @
             concat (map (\<lambda>t. ''&'' @ t) (map (pair_text prims ?M) bs)) @ secret_suffix v"
    unfolding canonical_def ks
    by (simp add: join_snoc_pieces del: map_map)
  show ?thesis
    unfolding new cur by simp
qed

lemma signable_agree:
  "fmdrop_set (excluded v) m' = fmdrop_set (excluded v) m \<Longrightarrow>
   signature_of v prims m' = signature_of v prims m"
  using signature_of_signable [of v prims m] signature_of_signable [of v prims m']
  by (simp add: signable_def)

lemma signature_of_differs:
  assumes "Algorithm (config v) \<in> set recognized"
    and "digest v prims (canonical v prims m') \<noteq> digest v prims (canonical v prims m)"
  shows "fst (signature_of v prims m') \<noteq> fst (signature_of v prims m)"
  using assms hex_case_inj [of v "digest v prims (canonical v prims m')"
      "digest v prims (canonical v prims m)"]
  by (auto simp: signature_of_def)

lemma ignore_test_canonical:
  "canonical (NewSignValidator ignore_test_config) prims (fmap_of_list ignore_test_params) =
     ''amount=100.500000&id=123&name=test&key=testSecret''"
  "canonical (NewSignValidator ignore_test_config) prims
     (fmap_of_list ((''amount'', VFloat (FNum False 25 3)) # ignore_test_params)) =
     ''amount=200.000000&id=123&name=test&key=testSecret''"
  unfolding ignore_test_params_def canonical_of_list
  by (simp_all add: NewSignValidator_def ignore_test_config_def secret_suffix_def excluded_def
      algorithm_defs format_simps string_order_simps)

lemma ignore_test_excluded:
  "excluded (NewSignValidator ignore_test_config) = {''sign'', ''timestamp'', ''nonce''}"
  by (simp add: excluded_def NewSignValidator_def ignore_test_config_def algorithm_defs)

lemma ignore_test_same_signable:
  "fmdrop_set {''sign'', ''timestamp'', ''nonce''} (fmap_of_list ignored_changed_params) =
   fmdrop_set {''sign'', ''timestamp'', ''nonce''} (fmap_of_list ignore_test_params)"
  by (rule fmap_ext) (simp add: ignored_changed_params_def ignore_test_params_def)

subsection \<open>Two mappings with one canonical string\<close>

lemma excluded_length:
  assumes "k \<in> excluded v"
  shows "length k \<le> sum_list (map length (SignatureKey (config v) # IgnoreKeys (config v)))"
proof -
  from assms have "length k \<in> set (map length (SignatureKey (config v) # IgnoreKeys (config v)))"
    by (auto simp: excluded_def)
  then show ?thesis
    by (rule member_le_sum_list) simp
qed

lemma fresh_key_not_excluded:
  "fresh_key v \<notin> excluded v" "fresh_key v @ ''a'' \<notin> excluded v"
  using excluded_length [of "fresh_key v" v] excluded_length [of "fresh_key v @ ''a''" v]
  by (auto simp: fresh_key_def)

lemma less_snoc: "k < k @ [c]" for k :: string
  by (induction k) simp_all

lemma collision:
  assumes "k1 < k2" and "k1 \<notin> excluded v" and "k2 \<notin> excluded v"
  shows "canonical v prims (fmap_of_list [(k1, VString (''1&'' @ k2 @ ''=2''))]) =
         canonical v prims (fmap_of_list [(k1, VString ''1''), (k2, VString ''2'')])"
proof -
  from assms(1) have "k1 \<noteq> k2" "k1 \<le> k2" "\<not> k2 \<le> k1"
    by auto
  with assms(2,3) show ?thesis
    unfolding canonical_of_list by simp
qed

lemma collision_maps_differ:
  "k1 \<noteq> k2 \<Longrightarrow>
   fmlookup (fmap_of_list [(k1, VString (''1&'' @ k2 @ ''=2''))]) k2 \<noteq>
   fmlookup (fmap_of_list [(k1, VString ''1''), (k2, VString ''2'')]) k2"
  by simp

lemma collision_maps_ne:
  assumes "k1 \<noteq> k2"
  shows "fmap_of_list [(k1, VString (''1&'' @ k2 @ ''=2''))] \<noteq>
         fmap_of_list [(k1, VString ''1''), (k2, VString ''2'')]"
  using collision_maps_differ [OF assms] by metis

section \<open>The claims\<close>

text \<open>
  C1. Round trip: under a recognised algorithm \<open>GenerateSignature\<close> returns a signature
  and no error, and \<open>Validate\<close>, called next on the same parameters with that
  signature, returns true and no error.
\<close>

theorem roundtrip:
  assumes "Algorithm (config v) \<in> set recognized"
  shows "\<exists>sig s'. GenerateSignature v prims params s = ((sig, None), s') \<and>
           fst (Validate v prims params sig s') = (True, None)"
  using assms
  by (simp add: GenerateSignature_eq Validate_eq deref_after signature_of_recognized)

theorem roundtrip_witness:
  "Algorithm (config (NewSignValidator md5_test_config)) \<in> set recognized \<and>
   (\<exists>sig s'. GenerateSignature (NewSignValidator md5_test_config) stub_primitives (MapRef 0)
                [test_params] = ((sig, None), s') \<and>
              fst (Validate (NewSignValidator md5_test_config) stub_primitives (MapRef 0) sig s') =
              (True, None))"
proof -
  have a: "Algorithm (config (NewSignValidator md5_test_config)) \<in> set recognized"
    by (simp add: NewSignValidator_def md5_test_config_def recognized_def algorithm_defs)
  from a roundtrip [OF a, of stub_primitives "MapRef 0" "[test_params]"] show ?thesis
    by simp
qed

text \<open>
  C2. Two mappings that agree once the signature key and the ignored keys are dropped
  get the same outcome from \<open>Validate\<close>, whatever the signature. When the value of
  another key that the mapping holds is replaced, the string that is digested changes
  exactly when the text \<open>convertToString\<close> gives the new value differs from the text
  of the old one; and then, under a recognised algorithm, a signature that was valid
  is no longer valid, provided the digest of the two strings differs.
\<close>

theorem exclusion:
  "(fmdrop_set (excluded v) (deref s1 params1) = fmdrop_set (excluded v) (deref s params) \<longrightarrow>
      fst (Validate v prims params1 sig s1) = fst (Validate v prims params sig s)) \<and>
   (deref s2 params2 = fmupd k x (deref s params) \<and> k \<notin> excluded v \<and>
    fmlookup (deref s params) k = Some old \<longrightarrow>
      (fst (stringToSign v prims params2 s2) = fst (stringToSign v prims params s) \<longleftrightarrow>
       convertToString prims x = convertToString prims old) \<and>
      (Algorithm (config v) \<in> set recognized \<and>
       digest v prims (fst (stringToSign v prims params2 s2)) \<noteq>
         digest v prims (fst (stringToSign v prims params s)) \<and>
       fst (Validate v prims params sig s) = (True, None) \<longrightarrow>
         fst (Validate v prims params2 sig s2) = (False, None)))"
proof (intro conjI impI)
  assume "fmdrop_set (excluded v) (deref s1 params1) = fmdrop_set (excluded v) (deref s params)"
  then have "signature_of v prims (deref s1 params1) = signature_of v prims (deref s params)"
    by (rule signable_agree)
  then show "fst (Validate v prims params1 sig s1) = fst (Validate v prims params sig s)"
    by (simp add: Validate_eq)
next
  assume a: "deref s2 params2 = fmupd k x (deref s params) \<and> k \<notin> excluded v \<and>
             fmlookup (deref s params) k = Some old"
  then show "fst (stringToSign v prims params2 s2) = fst (stringToSign v prims params s) \<longleftrightarrow>
             convertToString prims x = convertToString prims old"
    using canonical_change [of k v "deref s params" old prims x]
    by (simp add: stringToSign_eq)
next
  assume b: "Algorithm (config v) \<in> set recognized \<and>
       digest v prims (fst (stringToSign v prims params2 s2)) \<noteq>
         digest v prims (fst (stringToSign v prims params s)) \<and>
       fst (Validate v prims params sig s) = (True, None)"
  then have r: "Algorithm (config v) \<in> set recognized"
    and d: "digest v prims (canonical v prims (deref s2 params2)) \<noteq>
            digest v prims (canonical v prims (deref s params))"
    and t: "fst (Validate v prims params sig s) = (True, None)"
    by (simp_all add: stringToSign_eq)
  from t r have "sig = fst (signature_of v prims (deref s params))"
    by (simp add: Validate_eq signature_of_def)
  with signature_of_differs [OF r d] r
  show "fst (Validate v prims params2 sig s2) = (False, None)"
    by (simp add: Validate_eq signature_of_def)
qed

theorem exclusion_witness:
  "fmdrop_set (excluded (NewSignValidator ignore_test_config))
     (deref [fmap_of_list ignored_changed_params] (MapRef 0)) =
   fmdrop_set (excluded (NewSignValidator ignore_test_config))
     (deref [fmap_of_list ignore_test_params] (MapRef 0)) \<and>
   fst (Validate (NewSignValidator ignore_test_config) stub_primitives (MapRef 0)
          (hex_EncodeToString ''amount=100.500000&id=123&name=test&key=testSecret'')
          [fmap_of_list ignored_changed_params]) = (True, None) \<and>
   fst (Validate (NewSignValidator ignore_test_config) stub_primitives (MapRef 0)
          (hex_EncodeToString ''amount=100.500000&id=123&name=test&key=testSecret'')
          [fmap_of_list ignore_test_params]) = (True, None) \<and>
   ''amount'' \<notin> excluded (NewSignValidator ignore_test_config) \<and>
   fmlookup (fmap_of_list ignore_test_params) ''amount'' = Some (VFloat (FNum False 201 (- 1))) \<and>
   convertToString stub_primitives (VFloat (FNum False 25 3)) \<noteq>
     convertToString stub_primitives (VFloat (FNum False 201 (- 1))) \<and>
   fst (stringToSign (NewSignValidator ignore_test_config) stub_primitives (MapRef 0)
          [fmap_of_list ((''amount'', VFloat (FNum False 25 3)) # ignore_test_params)]) \<noteq>
   fst (stringToSign (NewSignValidator ignore_test_config) stub_primitives (MapRef 0)
          [fmap_of_list ignore_test_params]) \<and>
   Algorithm (config (NewSignValidator ignore_test_config)) \<in> set recognized \<and>
   fst (Validate (NewSignValidator ignore_test_config) stub_primitives (MapRef 0)
          (hex_EncodeToString ''amount=100.500000&id=123&name=test&key=testSecret'')
          [fmap_of_list ((''amount'', VFloat (FNum False 25 3)) # ignore_test_params)]) =
     (False, None)"
proof -
  let ?v = "NewSignValidator ignore_test_config"
  let ?P = "fmap_of_list ignore_test_params"
  let ?P1 = "fmap_of_list ignored_changed_params"
  let ?P2 = "fmap_of_list ((''amount'', VFloat (FNum False 25 3)) # ignore_test_params)"
  let ?sig = "hex_EncodeToString ''amount=100.500000&id=123&name=test&key=testSecret''"
  have d: "deref [?P] (MapRef 0) = ?P" "deref [?P1] (MapRef 0) = ?P1"
    "deref [?P2] (MapRef 0) = ?P2"
    by (simp_all add: deref_def del: fmap_of_list_simps)
  have h1: "fmdrop_set (excluded ?v) (deref [?P1] (MapRef 0)) =
            fmdrop_set (excluded ?v) (deref [?P] (MapRef 0))"
    unfolding d ignore_test_excluded by (rule ignore_test_same_signable)
  have r: "Algorithm (config ?v) \<in> set recognized" "Algorithm (config ?v) = SHA1"
    "\<not> UpperCase (config ?v)"
    by (simp_all add: NewSignValidator_def ignore_test_config_def recognized_def algorithm_defs)
  have g: "signature_of ?v stub_primitives ?P = (?sig, None)"
    using r by (simp add: signature_of_def ignore_test_canonical hex_case_def digest_def
        ToLower_hex stub_primitives_def algorithm_defs del: fmap_of_list_simps)
  have t: "fst (Validate ?v stub_primitives (MapRef 0) ?sig [?P]) = (True, None)"
    unfolding Validate_eq d by (simp add: g del: fmap_of_list_simps)
  have h2: "deref [?P2] (MapRef 0) = fmupd ''amount'' (VFloat (FNum False 25 3))
              (deref [?P] (MapRef 0)) \<and>
            ''amount'' \<notin> excluded ?v \<and>
            fmlookup (deref [?P] (MapRef 0)) ''amount'' = Some (VFloat (FNum False 201 (- 1)))"
    unfolding d ignore_test_excluded by (simp add: ignore_test_params_def)
  have c: "convertToString stub_primitives (VFloat (FNum False 25 3)) \<noteq>
           convertToString stub_primitives (VFloat (FNum False 201 (- 1)))"
    by (simp add: format_simps)
  have s: "fst (stringToSign ?v stub_primitives (MapRef 0) [?P2]) =
             ''amount=200.000000&id=123&name=test&key=testSecret''"
    "fst (stringToSign ?v stub_primitives (MapRef 0) [?P]) =
             ''amount=100.500000&id=123&name=test&key=testSecret''"
    unfolding stringToSign_eq fst_conv d by (rule ignore_test_canonical)+
  have h3: "Algorithm (config ?v) \<in> set recognized \<and>
       digest ?v stub_primitives (fst (stringToSign ?v stub_primitives (MapRef 0) [?P2])) \<noteq>
         digest ?v stub_primitives (fst (stringToSign ?v stub_primitives (MapRef 0) [?P])) \<and>
       fst (Validate ?v stub_primitives (MapRef 0) ?sig [?P]) = (True, None)"
    unfolding s using r t by (simp add: digest_def stub_primitives_def algorithm_defs)
  have e: "''amount'' \<notin> excluded ?v"
    "fmlookup ?P ''amount'' = Some (VFloat (FNum False 201 (- 1)))"
    using h2 unfolding d by simp_all
  note ex = exclusion [of ?v "[?P1]" "MapRef 0" "[?P]" "MapRef 0" stub_primitives ?sig
      "[?P2]" "MapRef 0" "''amount''" "VFloat (FNum False 25 3)" "VFloat (FNum False 201 (- 1))"]
  from ex h1 have a1: "fst (Validate ?v stub_primitives (MapRef 0) ?sig [?P1]) =
                       fst (Validate ?v stub_primitives (MapRef 0) ?sig [?P])"
    by blast
  from ex h2 h3 have a2: "fst (Validate ?v stub_primitives (MapRef 0) ?sig [?P2]) = (False, None)"
    by blast
  from ex h2 c have a3: "fst (stringToSign ?v stub_primitives (MapRef 0) [?P2]) \<noteq>
                         fst (stringToSign ?v stub_primitives (MapRef 0) [?P])"
    by blast
  show ?thesis
    using h1 a1 a2 a3 t e c r(1) by (simp only: simp_thms)
qed

theorem exclusion_counterexample:
  "''a'' \<notin> excluded (NewSignValidator md5_test_config) \<and>
   fmlookup (fmap_of_list [(''a'', VInt 1)]) ''a'' = Some (VInt 1) \<and>
   VString ''1'' \<noteq> VInt 1 \<and>
   fst (Validate (NewSignValidator md5_test_config) stub_primitives (MapRef 0)
          (fst (fst (GenerateSignature (NewSignValidator md5_test_config) stub_primitives
                       (MapRef 0) [fmap_of_list [(''a'', VInt 1)]])))
          [fmap_of_list [(''a'', VInt 1)]]) = (True, None) \<and>
   fst (Validate (NewSignValidator md5_test_config) stub_primitives (MapRef 0)
          (fst (fst (GenerateSignature (NewSignValidator md5_test_config) stub_primitives
                       (MapRef 0) [fmap_of_list [(''a'', VInt 1)]])))
          [fmupd ''a'' (VString ''1'') (fmap_of_list [(''a'', VInt 1)])]) = (True, None)"
proof -
  let ?v = "NewSignValidator md5_test_config"
  have e: "''a'' \<notin> excluded ?v"
    by (simp add: excluded_def NewSignValidator_def md5_test_config_def algorithm_defs)
  have r: "Algorithm (config ?v) \<in> set recognized"
    by (simp add: NewSignValidator_def md5_test_config_def recognized_def algorithm_defs)
  have "convertToString stub_primitives (VString ''1'') = convertToString stub_primitives (VInt 1)"
    by (simp add: format_simps)
  with e have "canonical ?v stub_primitives (fmupd ''a'' (VString ''1'')
                 (fmap_of_list [(''a'', VInt 1)])) =
               canonical ?v stub_primitives (fmap_of_list [(''a'', VInt 1)])"
    by (subst canonical_change [where old = "VInt 1"]) simp_all
  then have "signature_of ?v stub_primitives (fmupd ''a'' (VString ''1'')
                 (fmap_of_list [(''a'', VInt 1)])) =
             signature_of ?v stub_primitives (fmap_of_list [(''a'', VInt 1)])"
    by (simp add: signature_of_def)
  with e r show ?thesis
    by (simp add: Validate_eq GenerateSignature_eq deref_def signature_of_recognized)
qed

text \<open>
  C3. The scenario of \<open>TestSignValidator_MD5\<close>: whenever the caller's mapping is
  \<open>{id: 123, name: "test", amount: 100.50}\<close>, the string that is digested is
  \<open>amount=100.500000&id=123&name=test&key=testSecret\<close>, and the signature returned
  is the hexadecimal text of its MD5 digest, two lowercase digits for every byte.
\<close>

theorem md5_scenario:
  assumes "deref s params = test_params"
  shows "fst (stringToSign (NewSignValidator md5_test_config) prims params s) =
           ''amount=100.500000&id=123&name=test&key=testSecret'' \<and>
         fst (GenerateSignature (NewSignValidator md5_test_config) prims params s) =
           (hex_EncodeToString
              (hash_Sum prims md5_New ''amount=100.500000&id=123&name=test&key=testSecret''),
            None) \<and>
         set (fst (fst (GenerateSignature (NewSignValidator md5_test_config) prims params s)))
           \<subseteq> set ''0123456789abcdef''"
proof -
  let ?v = "NewSignValidator md5_test_config"
  have c: "canonical ?v prims test_params =
           ''amount=100.500000&id=123&name=test&key=testSecret''"
    unfolding test_params_def canonical_of_list
    by (simp add: NewSignValidator_def md5_test_config_def secret_suffix_def excluded_def
        algorithm_defs format_simps string_order_simps)
  have a: "Algorithm (config ?v) = MD5" "\<not> UpperCase (config ?v)"
    by (simp_all add: NewSignValidator_def md5_test_config_def algorithm_defs)
  have g: "fst (GenerateSignature ?v prims params s) =
           (hex_EncodeToString
              (hash_Sum prims md5_New ''amount=100.500000&id=123&name=test&key=testSecret''),
            None)"
    using a by (simp add: GenerateSignature_eq signature_of_def recognized_def assms c
        hex_case_def digest_def ToLower_hex)
  show ?thesis
    using set_hex by (simp add: stringToSign_eq assms c g)
qed

theorem md5_scenario_witness:
  "deref [test_params] (MapRef 0) = test_params \<and>
   fst (stringToSign (NewSignValidator md5_test_config) stub_primitives (MapRef 0)
          [test_params]) = ''amount=100.500000&id=123&name=test&key=testSecret'' \<and>
   fst (GenerateSignature (NewSignValidator md5_test_config) stub_primitives (MapRef 0)
          [test_params]) =
     (hex_EncodeToString
        (hash_Sum stub_primitives md5_New ''amount=100.500000&id=123&name=test&key=testSecret''),
      None)"
proof -
  have d: "deref [test_params] (MapRef 0) = test_params"
    by (simp add: deref_def)
  from d md5_scenario [OF d, of stub_primitives] show ?thesis
    by simp
qed

text \<open>
  C4. The string that is digested is the string built without a secret, followed by
  \<open>&key=\<close> and the secret when the secret is not empty and by nothing when it is
  empty. This holds under every algorithm; under the three HMAC algorithms the
  signature is the encoded HMAC of that very string, keyed with the same configured
  secret, which is the empty key when the secret is empty.
\<close>

theorem secret_segment:
  "fst (stringToSign v prims params s) =
     fst (stringToSign (v\<lparr>config := (config v)\<lparr>Secret := ''''\<rparr>\<rparr>) prims params s) @
     (if Secret (config v) \<noteq> '''' then ''&key='' @ Secret (config v) else '''') \<and>
   (Algorithm (config v) = HMAC_MD5 \<longrightarrow>
    fst (GenerateSignature v prims params s) =
      (hex_case v (hmac_Sum prims md5_New (Secret (config v))
                     (fst (stringToSign v prims params s))), None)) \<and>
   (Algorithm (config v) = HMAC_SHA1 \<longrightarrow>
    fst (GenerateSignature v prims params s) =
      (hex_case v (hmac_Sum prims sha1_New (Secret (config v))
                     (fst (stringToSign v prims params s))), None)) \<and>
   (Algorithm (config v) = HMAC_SHA256 \<longrightarrow>
    fst (GenerateSignature v prims params s) =
      (hex_case v (hmac_Sum prims sha256_New (Secret (config v))
                     (fst (stringToSign v prims params s))), None)) \<and>
   (Algorithm (config v) \<in> {MD5, SHA1, SHA256} \<longrightarrow>
    (\<exists>h. fst (GenerateSignature v prims params s) =
      (hex_case v (hash_Sum prims h (fst (stringToSign v prims params s))), None)))"
proof -
  have 1: "fst (stringToSign v prims params s) =
     fst (stringToSign (v\<lparr>config := (config v)\<lparr>Secret := ''''\<rparr>\<rparr>) prims params s) @
     (if Secret (config v) \<noteq> '''' then ''&key='' @ Secret (config v) else '''')"
    using canonical_Secret [of v prims "deref s params"]
    by (simp add: stringToSign_eq secret_suffix_def)
  have 2: "fst (GenerateSignature v prims params s) =
      (hex_case v (digest v prims (fst (stringToSign v prims params s))), None)"
    if "Algorithm (config v) \<in> set recognized"
    using that by (simp add: GenerateSignature_eq stringToSign_eq signature_of_def)
  show ?thesis
    apply (intro conjI impI)
        apply (rule 1)
       apply (simp add: 2 recognized_def digest_def algorithm_defs)
      apply (simp add: 2 recognized_def digest_def algorithm_defs)
     apply (simp add: 2 recognized_def digest_def algorithm_defs)
    apply (auto simp: 2 recognized_def digest_def algorithm_defs)
    done
qed

theorem secret_segment_witness:
  "Algorithm (config (NewSignValidator hmac_test_config)) = HMAC_SHA256 \<and>
   fst (stringToSign (NewSignValidator hmac_test_config) stub_primitives (MapRef 0)
          [hmac_test_params]) =
     ''amount=100.500000&id=123&name=test'' @ ''&key=testSecret'' \<and>
   fst (GenerateSignature (NewSignValidator hmac_test_config) stub_primitives (MapRef 0)
          [hmac_test_params]) =
     (ToUpper (hex_EncodeToString
        (''testSecret'' @ ''amount=100.500000&id=123&name=test&key=testSecret'')), None)"
proof -
  let ?v = "NewSignValidator hmac_test_config"
  have a: "Algorithm (config ?v) = HMAC_SHA256" "UpperCase (config ?v)"
    "Secret (config ?v) = ''testSecret''"
    by (simp_all add: NewSignValidator_def hmac_test_config_def algorithm_defs)
  have c0: "canonical ?v stub_primitives hmac_test_params =
            ''amount=100.500000&id=123&name=test&key=testSecret''"
    unfolding hmac_test_params_def canonical_of_list
    by (simp add: NewSignValidator_def hmac_test_config_def secret_suffix_def excluded_def
        algorithm_defs format_simps string_order_simps)
  have c: "fst (stringToSign ?v stub_primitives (MapRef 0) [hmac_test_params]) =
           ''amount=100.500000&id=123&name=test&key=testSecret''"
    by (simp add: stringToSign_eq deref_def c0)
  from secret_segment [of ?v stub_primitives "MapRef 0" "[hmac_test_params]"] a c
  show ?thesis
    by (simp add: hex_case_def stub_primitives_def)
qed




text \<open>
  C6. \<open>NewSignValidator\<close> returns a validator for every configuration, with the two
  defaults applied and the other fields kept. When the resulting algorithm is not one
  of the six, \<open>GenerateSignature\<close> returns the empty signature and the error that
  carries the configured algorithm value.
\<close>

theorem construction_defaults:
  "config (NewSignValidator c) =
     c\<lparr>SignatureKey := (if SignatureKey c = '''' then ''sign'' else SignatureKey c),
       Algorithm := (if Algorithm c = '''' then SHA256 else Algorithm c)\<rparr> \<and>
   (Algorithm (config (NewSignValidator c)) \<notin> set recognized \<longrightarrow>
    fst (GenerateSignature (NewSignValidator c) prims params s) =
      ('''', Some (UnsupportedAlgorithm (Algorithm c))))"
  by (auto simp: NewSignValidator_def GenerateSignature_eq signature_of_def recognized_def)

theorem construction_defaults_witness:
  "config (NewSignValidator crc_config) = crc_config\<lparr>SignatureKey := ''sign''\<rparr> \<and>
   Algorithm (config (NewSignValidator crc_config)) \<notin> set recognized \<and>
   fst (GenerateSignature (NewSignValidator crc_config) stub_primitives (MapRef 0)
          [test_params]) = ('''', Some (UnsupportedAlgorithm ''crc32''))"
proof -
  have a: "Algorithm (config (NewSignValidator crc_config)) \<notin> set recognized"
    by (simp add: NewSignValidator_def crc_config_def recognized_def algorithm_defs)
  from a construction_defaults [of crc_config stub_primitives "MapRef 0" "[test_params]"]
  show ?thesis
    by (simp add: crc_config_def)
qed

text \<open>
  C7. \<open>ValidateWithSignInParams\<close> returns false with the missing-signature error
  when the mapping has no entry under the signature key, false with the
  invalid-type error when the entry is not a string, and otherwise exactly what
  \<open>Validate\<close> returns for that string. The entry under the signature key has no
  influence on the signature that is recomputed: two mappings that agree once that
  entry is dropped get the same result from \<open>GenerateSignature\<close> and from
  \<open>Validate\<close>.
\<close>

theorem sign_in_params:
  "ValidateWithSignInParams v prims params s =
     (case fmlookup (deref s params) (SignatureKey (config v)) of
        None \<Rightarrow> ((False, Some MissingSignature), s)
      | Some (VString signature) \<Rightarrow> Validate v prims params signature s
      | Some _ \<Rightarrow> ((False, Some InvalidSignatureType), s)) \<and>
   (fmdrop (SignatureKey (config v)) (deref s' params') =
    fmdrop (SignatureKey (config v)) (deref s params) \<longrightarrow>
      fst (GenerateSignature v prims params' s') = fst (GenerateSignature v prims params s) \<and>
      fst (Validate v prims params' sig s') = fst (Validate v prims params sig s))"
proof (intro conjI impI)
  show "ValidateWithSignInParams v prims params s =
     (case fmlookup (deref s params) (SignatureKey (config v)) of
        None \<Rightarrow> ((False, Some MissingSignature), s)
      | Some (VString signature) \<Rightarrow> Validate v prims params signature s
      | Some _ \<Rightarrow> ((False, Some InvalidSignatureType), s))"
    by (simp add: ValidateWithSignInParams_def map_index_def split: option.splits gvalue.splits)
next
  assume "fmdrop (SignatureKey (config v)) (deref s' params') =
          fmdrop (SignatureKey (config v)) (deref s params)"
  then have "signature_of v prims (deref s' params') = signature_of v prims (deref s params)"
    by (rule signature_of_cong)
  then show "fst (GenerateSignature v prims params' s') = fst (GenerateSignature v prims params s)"
    and "fst (Validate v prims params' sig s') = fst (Validate v prims params sig s)"
    by (simp_all add: GenerateSignature_eq Validate_eq)
qed

theorem sign_in_params_witness:
  "fmdrop (SignatureKey (config (NewSignValidator hmac_test_config))) (deref [hmac_test_params] (MapRef 0)) =
   fmdrop (SignatureKey (config (NewSignValidator hmac_test_config))) (deref [test_params] (MapRef 0)) \<and>
   fst (GenerateSignature (NewSignValidator hmac_test_config) stub_primitives (MapRef 0)
          [hmac_test_params]) =
   fst (GenerateSignature (NewSignValidator hmac_test_config) stub_primitives (MapRef 0)
          [test_params]) \<and>
   ValidateWithSignInParams (NewSignValidator hmac_test_config) stub_primitives (MapRef 0)
     [hmac_test_params] =
   Validate (NewSignValidator hmac_test_config) stub_primitives (MapRef 0)
     ''should_be_ignored'' [hmac_test_params] \<and>
   ValidateWithSignInParams (NewSignValidator hmac_test_config) stub_primitives (MapRef 0)
     [test_params] = ((False, Some MissingSignature), [test_params]) \<and>
   ValidateWithSignInParams (NewSignValidator hmac_test_config) stub_primitives (MapRef 0)
     [fmupd ''sign'' (VInt 7) test_params] =
     ((False, Some InvalidSignatureType), [fmupd ''sign'' (VInt 7) test_params])"
proof -
  let ?v = "NewSignValidator hmac_test_config"
  have k: "SignatureKey (config ?v) = ''sign''"
    by (simp add: NewSignValidator_def hmac_test_config_def algorithm_defs)
  have d: "fmdrop (SignatureKey (config ?v)) (deref [hmac_test_params] (MapRef 0)) =
           fmdrop (SignatureKey (config ?v)) (deref [test_params] (MapRef 0))"
    by (simp add: k deref_def fmdrop_sign_test_params)
  have l: "fmlookup hmac_test_params ''sign'' = Some (VString ''should_be_ignored'')"
    "fmlookup test_params ''sign'' = None"
    by (simp_all add: hmac_test_params_def test_params_def)
  from d sign_in_params [of ?v stub_primitives "MapRef 0" "[hmac_test_params]"
      "[test_params]" "MapRef 0" "[]"]
    sign_in_params [of ?v stub_primitives "MapRef 0" "[test_params]" "[]" NilMap "[]"]
    sign_in_params [of ?v stub_primitives "MapRef 0" "[fmupd ''sign'' (VInt 7) test_params]"
      "[]" NilMap "[]"]
  show ?thesis
    by (simp add: k l deref_def)
qed

text \<open>
  C8. None of the three operations changes a map that was in the store when it was
  called: the store it leaves behind begins with the store it was given, and the
  caller's mapping reads as before. The copy is the only map it allocates.
\<close>

theorem params_not_mutated:
  "take (length s) (snd (GenerateSignature v prims params s)) = s \<and>
   length (snd (GenerateSignature v prims params s)) = Suc (length s) \<and>
   deref (snd (GenerateSignature v prims params s)) params = deref s params \<and>
   take (length s) (snd (Validate v prims params signature s)) = s \<and>
   deref (snd (Validate v prims params signature s)) params = deref s params \<and>
   take (length s) (snd (ValidateWithSignInParams v prims params s)) = s \<and>
   deref (snd (ValidateWithSignInParams v prims params s)) params = deref s params"
  by (simp add: GenerateSignature_eq Validate_eq ValidateWithSignInParams_def deref_after
      split: prod.splits gvalue.splits)

text \<open>
  C9. The string that is digested does not determine the mapping. Under a configuration
  that excludes neither \<open>a\<close> nor \<open>b\<close>, the mappings \<open>{a: "1&b=2"}\<close> and
  \<open>{a: "1", b: "2"}\<close> give the same string and the same signature. And every
  configuration has such a pair: two distinct mappings that differ at a key which is
  neither the signature key nor ignored, with the same string and the same signature.
\<close>

theorem canonical_not_injective:
  "(''a'' \<notin> excluded v \<and> ''b'' \<notin> excluded v \<and>
    deref s1 params1 = fmap_of_list [(''a'', VString ''1&b=2'')] \<and>
    deref s2 params2 = fmap_of_list [(''a'', VString ''1''), (''b'', VString ''2'')] \<longrightarrow>
      deref s1 params1 \<noteq> deref s2 params2 \<and>
      fst (stringToSign v prims params1 s1) = fst (stringToSign v prims params2 s2) \<and>
      fst (GenerateSignature v prims params1 s1) = fst (GenerateSignature v prims params2 s2)) \<and>
   (\<exists>m1 m2 k. m1 \<noteq> m2 \<and> k \<notin> excluded v \<and> fmlookup m1 k \<noteq> fmlookup m2 k \<and>
      fst (stringToSign v prims (MapRef 0) [m1]) = fst (stringToSign v prims (MapRef 0) [m2]) \<and>
      fst (GenerateSignature v prims (MapRef 0) [m1]) =
        fst (GenerateSignature v prims (MapRef 0) [m2]))"
proof (intro conjI impI)
  assume a: "''a'' \<notin> excluded v \<and> ''b'' \<notin> excluded v \<and>
    deref s1 params1 = fmap_of_list [(''a'', VString ''1&b=2'')] \<and>
    deref s2 params2 = fmap_of_list [(''a'', VString ''1''), (''b'', VString ''2'')]"
  have lt: "''a'' < ''b''"
    by (simp add: string_order_simps)
  from a collision [OF lt, of v prims]
  have c: "canonical v prims (deref s1 params1) = canonical v prims (deref s2 params2)"
    by simp
  have "fmap_of_list [(''a'', VString ''1&b=2'')] \<noteq>
        fmap_of_list [(''a'', VString ''1''), (''b'', VString ''2'')]"
    using collision_maps_ne [of "''a''" "''b''"] by simp
  with a show "deref s1 params1 \<noteq> deref s2 params2"
    by (simp only: simp_thms)
  from c show "fst (stringToSign v prims params1 s1) = fst (stringToSign v prims params2 s2)"
    by (simp add: stringToSign_eq)
  from c show "fst (GenerateSignature v prims params1 s1) =
               fst (GenerateSignature v prims params2 s2)"
    by (simp add: GenerateSignature_eq signature_of_def)
next
  let ?k1 = "fresh_key v"
  let ?k2 = "fresh_key v @ ''a''"
  let ?m1 = "fmap_of_list [(?k1, VString (''1&'' @ ?k2 @ ''=2''))]"
  let ?m2 = "fmap_of_list [(?k1, VString ''1''), (?k2, VString ''2'')]"
  have lt: "?k1 < ?k2"
    by (rule less_snoc)
  then have ne: "?k1 \<noteq> ?k2"
    by simp
  have c: "canonical v prims ?m1 = canonical v prims ?m2"
    using lt fresh_key_not_excluded by (rule collision)
  have l: "fmlookup ?m1 ?k2 \<noteq> fmlookup ?m2 ?k2"
    using ne by (rule collision_maps_differ)
  have d: "?m1 \<noteq> ?m2"
    using ne by (rule collision_maps_ne)
  have s: "fst (stringToSign v prims (MapRef 0) [?m1]) =
           fst (stringToSign v prims (MapRef 0) [?m2])"
    using c by (simp add: stringToSign_eq deref_def del: fmap_of_list_simps)
  have g: "fst (GenerateSignature v prims (MapRef 0) [?m1]) =
           fst (GenerateSignature v prims (MapRef 0) [?m2])"
    using c by (simp add: GenerateSignature_eq signature_of_def deref_def
        del: fmap_of_list_simps)
  from d fresh_key_not_excluded(2) l s g
  show "\<exists>m1 m2 k. m1 \<noteq> m2 \<and> k \<notin> excluded v \<and> fmlookup m1 k \<noteq> fmlookup m2 k \<and>
      fst (stringToSign v prims (MapRef 0) [m1]) = fst (stringToSign v prims (MapRef 0) [m2]) \<and>
      fst (GenerateSignature v prims (MapRef 0) [m1]) =
        fst (GenerateSignature v prims (MapRef 0) [m2])"
    by blast
qed

theorem canonical_not_injective_witness:
  "''a'' \<notin> excluded (NewSignValidator md5_test_config) \<and>
   ''b'' \<notin> excluded (NewSignValidator md5_test_config) \<and>
   fmap_of_list [(''a'', VString ''1&b=2'')] \<noteq>
     fmap_of_list [(''a'', VString ''1''), (''b'', VString ''2'')] \<and>
   fst (stringToSign (NewSignValidator md5_test_config) stub_primitives (MapRef 0)
          [fmap_of_list [(''a'', VString ''1&b=2'')]]) = ''a=1&b=2&key=testSecret'' \<and>
   fst (stringToSign (NewSignValidator md5_test_config) stub_primitives (MapRef 0)
          [fmap_of_list [(''a'', VString ''1''), (''b'', VString ''2'')]]) =
     ''a=1&b=2&key=testSecret'' \<and>
   fst (GenerateSignature (NewSignValidator md5_test_config) stub_primitives (MapRef 0)
          [fmap_of_list [(''a'', VString ''1&b=2'')]]) =
   fst (GenerateSignature (NewSignValidator md5_test_config) stub_primitives (MapRef 0)
          [fmap_of_list [(''a'', VString ''1''), (''b'', VString ''2'')]])"
proof -
  let ?v = "NewSignValidator md5_test_config"
  let ?m1 = "fmap_of_list [(''a'', VString ''1&b=2'')]"
  let ?m2 = "fmap_of_list [(''a'', VString ''1''), (''b'', VString ''2'')]"
  have e: "''a'' \<notin> excluded ?v" "''b'' \<notin> excluded ?v"
    by (simp_all add: excluded_def NewSignValidator_def md5_test_config_def algorithm_defs)
  have d: "deref [?m1] (MapRef 0) = ?m1" "deref [?m2] (MapRef 0) = ?m2"
    by (simp_all add: deref_def del: fmap_of_list_simps)
  have c: "canonical ?v stub_primitives ?m1 = ''a=1&b=2&key=testSecret''"
    unfolding canonical_of_list
    by (simp add: NewSignValidator_def md5_test_config_def secret_suffix_def excluded_def
        algorithm_defs string_order_simps)
  have s: "fst (stringToSign ?v stub_primitives (MapRef 0) [?m1]) = ''a=1&b=2&key=testSecret''"
    unfolding stringToSign_eq fst_conv d by (rule c)
  from canonical_not_injective [of ?v "[?m1]" "MapRef 0" "[?m2]" "MapRef 0" stub_primitives]
    e d
  have "?m1 \<noteq> ?m2 \<and>
        fst (stringToSign ?v stub_primitives (MapRef 0) [?m1]) =
        fst (stringToSign ?v stub_primitives (MapRef 0) [?m2]) \<and>
        fst (GenerateSignature ?v stub_primitives (MapRef 0) [?m1]) =
        fst (GenerateSignature ?v stub_primitives (MapRef 0) [?m2])"
    by (simp only: simp_thms)
  with e s show ?thesis
    by (simp only: simp_thms)
qed

text \<open>
  C10. When every key of the mapping is the signature key or an ignored key (an empty
  mapping included) and the secret is not empty, the string that is digested is
  \<open>&key=\<close> followed by the secret, and under a recognised algorithm the signature is
  the encoded digest of that string.
\<close>

theorem only_secret_left:
  assumes "\<forall>k. k |\<in>| fmdom (deref s params) \<longrightarrow>
             k = SignatureKey (config v) \<or> k \<in> set (IgnoreKeys (config v))"
    and "Secret (config v) \<noteq> ''''"
  shows "fst (stringToSign v prims params s) = ''&key='' @ Secret (config v) \<and>
         (Algorithm (config v) \<in> set recognized \<longrightarrow>
          fst (GenerateSignature v prims params s) =
            (hex_case v (digest v prims (''&key='' @ Secret (config v))), None))"
proof -
  have "signable v (deref s params) = fmempty"
    using assms(1) by (intro signable_empty) (simp add: excluded_def)
  then have "canonical v prims (deref s params) = ''&key='' @ Secret (config v)"
    using assms(2) by (simp add: canonical_def secret_suffix_def sorted_list_of_fset_empty)
  then show ?thesis
    by (simp add: stringToSign_eq GenerateSignature_eq signature_of_def)
qed

theorem only_secret_left_witness:
  "(\<exists>k. k |\<in>| fmdom (deref [fmap_of_list [(''sign'', VString ''abc'')]] (MapRef 0))) \<and>
   Secret (config (NewSignValidator md5_test_config)) \<noteq> '''' \<and>
   fst (stringToSign (NewSignValidator md5_test_config) stub_primitives (MapRef 0)
          [fmap_of_list [(''sign'', VString ''abc'')]]) = ''&key=testSecret'' \<and>
   fst (GenerateSignature (NewSignValidator md5_test_config) stub_primitives (MapRef 0)
          [fmap_of_list [(''sign'', VString ''abc'')]]) =
     (hex_EncodeToString ''&key=testSecret'', None)"
proof -
  let ?v = "NewSignValidator md5_test_config"
  let ?s = "[fmap_of_list [(''sign'', VString ''abc'')]]"
  have 1: "\<forall>k. k |\<in>| fmdom (deref ?s (MapRef 0)) \<longrightarrow>
             k = SignatureKey (config ?v) \<or> k \<in> set (IgnoreKeys (config ?v))"
    by (simp add: deref_def NewSignValidator_def md5_test_config_def algorithm_defs)
  have 2: "Secret (config ?v) \<noteq> ''''"
    by (simp add: NewSignValidator_def md5_test_config_def algorithm_defs)
  have 3: "Algorithm (config ?v) \<in> set recognized" "Algorithm (config ?v) = MD5"
    "\<not> UpperCase (config ?v)" "Secret (config ?v) = ''testSecret''"
    by (simp_all add: NewSignValidator_def md5_test_config_def recognized_def algorithm_defs)
  have 4: "\<exists>k. k |\<in>| fmdom (deref ?s (MapRef 0))"
    by (simp add: deref_def)
  from only_secret_left [OF 1 2, of stub_primitives] 3 4 show ?thesis
    by (simp add: hex_case_def digest_def ToLower_hex stub_primitives_def del: fmap_of_list_simps)
qed

end
